theory Spec2Isabelle
  imports Complex_Main "HOL-Library.Word" "HOL-Library.Multiset"
begin

section \<open>JavaScript strings\<close>

text \<open>
  A JavaScript string is a sequence of 16-bit code units. String literals of the source are
  written with \<open>js\<close>, which maps every ASCII character to its code unit.
\<close>

type_synonym jsstring = "16 word list"

definition js :: "string \<Rightarrow> jsstring" where
  "js s = map of_char s"

datatype jserror = URIError | ExecError jsstring

subsection \<open>Code points (ECMAScript 11.1)\<close>

definition isLeadingSurrogate :: "16 word \<Rightarrow> bool" where
  "isLeadingSurrogate c = (0xD800 \<le> c \<and> c \<le> 0xDBFF)"

definition isTrailingSurrogate :: "16 word \<Rightarrow> bool" where
  "isTrailingSurrogate c = (0xDC00 \<le> c \<and> c \<le> 0xDFFF)"

definition UTF16SurrogatePairToCodePoint :: "16 word \<Rightarrow> 16 word \<Rightarrow> nat" where
  "UTF16SurrogatePairToCodePoint lead trail =
     (unat lead - 0xD800) * 0x400 + (unat trail - 0xDC00) + 0x10000"

record CodePointRecord =
  CodePoint :: nat
  CodeUnitCount :: nat
  IsUnpairedSurrogate :: bool

text \<open>\<open>CodePointAt s\<close> reads the code point at the head of the (non-empty) suffix \<open>s\<close>.\<close>

definition CodePointAt :: "jsstring \<Rightarrow> CodePointRecord" where
  "CodePointAt s =
     (let first = hd s in
      if \<not> isLeadingSurrogate first \<and> \<not> isTrailingSurrogate first then
        \<lparr>CodePoint = unat first, CodeUnitCount = 1, IsUnpairedSurrogate = False\<rparr>
      else if isTrailingSurrogate first \<or> length s = 1 then
        \<lparr>CodePoint = unat first, CodeUnitCount = 1, IsUnpairedSurrogate = True\<rparr>
      else
        (let second = hd (tl s) in
         if \<not> isTrailingSurrogate second then
           \<lparr>CodePoint = unat first, CodeUnitCount = 1, IsUnpairedSurrogate = True\<rparr>
         else
           \<lparr>CodePoint = UTF16SurrogatePairToCodePoint first second, CodeUnitCount = 2,
            IsUnpairedSurrogate = False\<rparr>))"

definition UTF16EncodeCodePoint :: "nat \<Rightarrow> jsstring" where
  "UTF16EncodeCodePoint cp =
     (if cp \<le> 0xFFFF then [of_nat cp]
      else [of_nat ((cp - 0x10000) div 0x400 + 0xD800),
            of_nat ((cp - 0x10000) mod 0x400 + 0xDC00)])"

lemma CodeUnitCount_pos: "0 < CodeUnitCount (CodePointAt s)"
  by (simp add: CodePointAt_def Let_def)

lemma drop_CodeUnitCount_less:
  "Suc (length rest) - CodeUnitCount (CodePointAt (C # rest)) < Suc (length rest)"
  using CodeUnitCount_pos [of "C # rest"] by simp

function IsStringWellFormedUnicode :: "jsstring \<Rightarrow> bool" where
  "IsStringWellFormedUnicode [] = True"
| "IsStringWellFormedUnicode (C # rest) =
     (let cp = CodePointAt (C # rest) in
      if IsUnpairedSurrogate cp then False
      else IsStringWellFormedUnicode (drop (CodeUnitCount cp) (C # rest)))"
  by pat_completeness auto
termination
  by (relation "measure length") (auto simp: drop_CodeUnitCount_less)

subsection \<open>URI encoding and decoding (ECMAScript 19.2.6)\<close>

definition alwaysUnescaped :: jsstring where
  "alwaysUnescaped =
     js ''abcdefghijklmnopqrstuvwxyzABCDEFGHIJKLMNOPQRSTUVWXYZ0123456789_-.!~*'()''"

definition utf8Octets :: "nat \<Rightarrow> nat list" where
  "utf8Octets cp =
     (if cp < 0x80 then [cp]
      else if cp < 0x800 then [0xC0 + cp div 64, 0x80 + cp mod 64]
      else if cp < 0x10000 then
        [0xE0 + cp div 4096, 0x80 + cp div 64 mod 64, 0x80 + cp mod 64]
      else
        [0xF0 + cp div 262144, 0x80 + cp div 4096 mod 64, 0x80 + cp div 64 mod 64,
         0x80 + cp mod 64])"

definition hexDigitUpper :: "nat \<Rightarrow> 16 word" where
  "hexDigitUpper d = (if d < 10 then of_nat (48 + d) else of_nat (55 + d))"

definition pctOctet :: "nat \<Rightarrow> jsstring" where
  "pctOctet b = [0x25, hexDigitUpper (b div 16), hexDigitUpper (b mod 16)]"

definition pctOctets :: "nat list \<Rightarrow> jsstring" where
  "pctOctets bs = concat (map pctOctet bs)"

function Encode :: "jsstring \<Rightarrow> jsstring \<Rightarrow> jserror + jsstring" where
  "Encode [] extraUnescaped = Inr []"
| "Encode (C # rest) extraUnescaped =
     (if C \<in> set (alwaysUnescaped @ extraUnescaped) then
        (case Encode rest extraUnescaped of
           Inl e \<Rightarrow> Inl e
         | Inr R \<Rightarrow> Inr (C # R))
      else
        (let cp = CodePointAt (C # rest) in
         if IsUnpairedSurrogate cp then Inl URIError
         else
           (case Encode (drop (CodeUnitCount cp) (C # rest)) extraUnescaped of
              Inl e \<Rightarrow> Inl e
            | Inr R \<Rightarrow> Inr (pctOctets (utf8Octets (CodePoint cp)) @ R))))"
  by pat_completeness auto
termination
  by (relation "measure (\<lambda>(s, e). length s)") (auto simp: drop_CodeUnitCount_less)

definition encodeURIComponent :: "jsstring \<Rightarrow> jserror + jsstring" where
  "encodeURIComponent uriComponent = Encode uriComponent []"

definition hexValue :: "16 word \<Rightarrow> nat option" where
  "hexValue c =
     (if 0x30 \<le> c \<and> c \<le> 0x39 then Some (unat c - 0x30)
      else if 0x41 \<le> c \<and> c \<le> 0x46 then Some (unat c - 0x41 + 10)
      else if 0x61 \<le> c \<and> c \<le> 0x66 then Some (unat c - 0x61 + 10)
      else None)"

text \<open>\<open>ParseHexOctet s\<close> reads two hexadecimal digits at the head of \<open>s\<close>.\<close>

definition ParseHexOctet :: "jsstring \<Rightarrow> nat option" where
  "ParseHexOctet s =
     (case s of
        h1 # h2 # _ \<Rightarrow>
          (case hexValue h1 of
             None \<Rightarrow> None
           | Some a \<Rightarrow> (case hexValue h2 of None \<Rightarrow> None | Some b \<Rightarrow> Some (16 * a + b)))
      | _ \<Rightarrow> None)"

definition leadingOnes :: "nat \<Rightarrow> nat" where
  "leadingOnes B =
     (if B < 0x80 then 0 else if B < 0xC0 then 1 else if B < 0xE0 then 2
      else if B < 0xF0 then 3 else if B < 0xF8 then 4 else 5)"

text \<open>
  The continuation escapes of a multi-byte sequence: \<open>m\<close> further \<open>%XX\<close> groups at the
  head of \<open>s\<close>; the result is the octets read and the rest of the string.
\<close>

fun continuationBytes :: "nat \<Rightarrow> jsstring \<Rightarrow> (nat list \<times> jsstring) option" where
  "continuationBytes 0 s = Some ([], s)"
| "continuationBytes (Suc m) s =
     (if length s < 3 then None
      else if hd s \<noteq> 0x25 then None
      else
        (case ParseHexOctet (tl s) of
           None \<Rightarrow> None
         | Some b \<Rightarrow>
             (case continuationBytes m (drop 3 s) of
                None \<Rightarrow> None
              | Some (bs, r) \<Rightarrow> Some (b # bs, r))))"

definition isContinuation :: "nat \<Rightarrow> bool" where
  "isContinuation b = (0x80 \<le> b \<and> b < 0xC0)"

text \<open>
  The UTF-8 transformation from octets to a code point; \<open>None\<close> when the octets are not a
  valid UTF-8 encoding of a code point (a continuation octet of the wrong form, an overlong
  form, a surrogate, a value above 0x10FFFF).
\<close>

definition utf8Decode :: "nat list \<Rightarrow> nat option" where
  "utf8Decode octets =
     (case octets of
        [b0, b1] \<Rightarrow>
          (let V = (b0 mod 32) * 64 + b1 mod 64 in
           if isContinuation b1 \<and> 0x80 \<le> V then Some V else None)
      | [b0, b1, b2] \<Rightarrow>
          (let V = (b0 mod 16) * 4096 + (b1 mod 64) * 64 + b2 mod 64 in
           if isContinuation b1 \<and> isContinuation b2 \<and> 0x800 \<le> V
              \<and> \<not> (0xD800 \<le> V \<and> V \<le> 0xDFFF)
           then Some V else None)
      | [b0, b1, b2, b3] \<Rightarrow>
          (let V = (b0 mod 8) * 262144 + (b1 mod 64) * 4096 + (b2 mod 64) * 64 + b3 mod 64 in
           if isContinuation b1 \<and> isContinuation b2 \<and> isContinuation b3 \<and> 0x10000 \<le> V
              \<and> V \<le> 0x10FFFF
           then Some V else None)
      | _ \<Rightarrow> None)"

lemma continuationBytes_length:
  "continuationBytes m s = Some (bs, r) \<Longrightarrow> length r \<le> length s"
proof (induction m arbitrary: s bs r)
  case 0
  then show ?case by simp
next
  case (Suc m)
  from Suc.prems obtain b bs' where
    "continuationBytes m (drop 3 s) = Some (bs', r)"
    by (auto split: if_splits option.splits)
  from Suc.IH [OF this] show ?case by simp
qed

function Decode :: "jsstring \<Rightarrow> jsstring \<Rightarrow> jserror + jsstring" where
  "Decode [] preserveEscapeSet = Inr []"
| "Decode (C # rest) preserveEscapeSet =
     (if C \<noteq> 0x25 then
        (case Decode rest preserveEscapeSet of
           Inl e \<Rightarrow> Inl e
         | Inr R \<Rightarrow> Inr (C # R))
      else if length (C # rest) < 3 then Inl URIError
      else
        (case ParseHexOctet rest of
           None \<Rightarrow> Inl URIError
         | Some B \<Rightarrow>
             (let n = leadingOnes B in
              if n = 0 then
                (case Decode (drop 2 rest) preserveEscapeSet of
                   Inl e \<Rightarrow> Inl e
                 | Inr R \<Rightarrow>
                     Inr ((if of_nat B \<in> set preserveEscapeSet then take 3 (C # rest)
                           else [of_nat B]) @ R))
              else if n = 1 \<or> n > 4 then Inl URIError
              else
                (case continuationBytes (n - 1) (drop 2 rest) of
                   None \<Rightarrow> Inl URIError
                 | Some (octets, rest') \<Rightarrow>
                     (case utf8Decode (B # octets) of
                        None \<Rightarrow> Inl URIError
                      | Some V \<Rightarrow>
                          (case Decode rest' preserveEscapeSet of
                             Inl e \<Rightarrow> Inl e
                           | Inr R \<Rightarrow> Inr (UTF16EncodeCodePoint V @ R)))))))"
  by pat_completeness auto
termination
  by (relation "measure (\<lambda>(s, p). length s)")
    (auto dest!: continuationBytes_length simp: less_Suc_eq_le intro: le_trans)

definition decodeURIComponent :: "jsstring \<Rightarrow> jserror + jsstring" where
  "decodeURIComponent encodedURIComponent = Decode encodedURIComponent []"

section \<open>Session keys\<close>

text \<open>\<open>encodeSessionKey\<close> lets the \<open>URIError\<close> of \<open>encodeURIComponent\<close> escape.\<close>

definition encodeSessionKey :: "jsstring \<Rightarrow> jserror + jsstring" where
  "encodeSessionKey raw = encodeURIComponent raw"

definition decodeSessionKey :: "jsstring \<Rightarrow> jsstring" where
  "decodeSessionKey encoded =
     (case decodeURIComponent encoded of
        Inr decoded \<Rightarrow> decoded
      | Inl e \<Rightarrow> encoded)"

section \<open>JavaScript values used by the extension\<close>

subsection \<open>White space, trimming, lines\<close>

text \<open>
  The code units that \<open>String.prototype.trim\<close> strips and that \<open>\s\<close> matches (WhiteSpace and
  LineTerminator), and the line terminators, which the regular expression \<open>.\<close> does not match.
\<close>

definition isWhiteSpace :: "16 word \<Rightarrow> bool" where
  "isWhiteSpace c =
     (c \<in> set [0x09, 0x0A, 0x0B, 0x0C, 0x0D, 0x20, 0xA0, 0x1680, 0x2028, 0x2029, 0x202F,
                0x205F, 0x3000, 0xFEFF]
      \<or> (0x2000 \<le> c \<and> c \<le> 0x200A))"


definition trim :: "jsstring \<Rightarrow> jsstring" where
  "trim s = rev (dropWhile isWhiteSpace (rev (dropWhile isWhiteSpace s)))"



subsection \<open>Numbers\<close>

text \<open>
  A JavaScript number is \<open>NaN\<close>, an infinity or a finite value. The finite values are
  modelled by the reals they denote; the rounding of a decimal text to the nearest double
  is the platform's (\<open>Number\<close> below is a parameter), and \<open>parseInt\<close> keeps the exact integer
  where JavaScript rounds it (above \<open>2^53\<close>).
\<close>

datatype jsnum = NaN | PosInf | NegInf | Fin real

definition Number_isInteger :: "jsnum \<Rightarrow> bool" where
  "Number_isInteger x = (case x of Fin r \<Rightarrow> of_int \<lfloor>r\<rfloor> = r | _ \<Rightarrow> False)"

text \<open>\<open>x <= c\<close> and \<open>x > c\<close> for a finite constant \<open>c\<close>; both are false on \<open>NaN\<close>.\<close>

definition num_le :: "jsnum \<Rightarrow> real \<Rightarrow> bool" where
  "num_le x c = (case x of NaN \<Rightarrow> False | PosInf \<Rightarrow> False | NegInf \<Rightarrow> True | Fin r \<Rightarrow> r \<le> c)"

definition num_gt :: "jsnum \<Rightarrow> real \<Rightarrow> bool" where
  "num_gt x c = (case x of NaN \<Rightarrow> False | PosInf \<Rightarrow> True | NegInf \<Rightarrow> False | Fin r \<Rightarrow> r > c)"

fun decimalDigits :: "nat \<Rightarrow> jsstring" where
  "decimalDigits n =
     (if n < 10 then [of_nat (48 + n)]
      else decimalDigits (n div 10) @ [of_nat (48 + n mod 10)])"

declare decimalDigits.simps [simp del]

subsection \<open>The platform and the outside world\<close>

text \<open>
  What the extension calls and does not define: the shell (\<open>exec\<close>), the file system check
  (\<open>access\<close>), the process launcher behind \<open>execFile\<close> (\<open>spawn\<close>), and three library
  functions whose full definition needs floating point or locale data. The world they act on
  is a type parameter.
\<close>

record execResult =
  error :: "jsstring option"
  stdout :: jsstring

datatype accessMode = X_OK | R_OK

record 'w env =
  exec :: "jsstring \<Rightarrow> 'w \<Rightarrow> execResult \<times> 'w"
  access :: "jsstring \<Rightarrow> accessMode \<Rightarrow> 'w \<Rightarrow> bool"
  spawn :: "jsstring \<Rightarrow> jsstring list \<Rightarrow> 'w \<Rightarrow> jsstring option \<times> 'w"
  Number :: "jsstring \<Rightarrow> jsnum"
  fractionToString :: "real \<Rightarrow> jsstring"
  localeCompare :: "jsstring \<Rightarrow> jsstring \<Rightarrow> int"

text \<open>
  \<open>String(x)\<close> and \<open>`${x}`\<close> for a number: decimal digits for an integer below \<open>10^21\<close>;
  the digits of any other finite value are the platform's.
\<close>

definition NumberToString :: "'w env \<Rightarrow> jsnum \<Rightarrow> jsstring" where
  "NumberToString env x =
     (case x of
        NaN \<Rightarrow> js ''NaN''
      | PosInf \<Rightarrow> js ''Infinity''
      | NegInf \<Rightarrow> js ''-Infinity''
      | Fin r \<Rightarrow>
          if of_int \<lfloor>r\<rfloor> = r \<and> \<bar>r\<bar> < 10 ^ 21 then
            (if r < 0 then js ''-'' else []) @ decimalDigits (nat \<bar>\<lfloor>r\<rfloor>\<bar>)
          else fractionToString env r)"

section \<open>State and effects\<close>

record PuttySession =
  id' :: jsstring
  name' :: jsstring

datatype toastStyle = Success | Failure

text \<open>
  The effects the extension has on the outside, in the order they happen. \<open>Access\<close> records a
  file system check and its answer.
\<close>

datatype event =
  Exec jsstring
  | Access jsstring accessMode bool
  | ExecFile jsstring "jsstring list"
  | ShowToast toastStyle jsstring "jsstring option"
  | PopToRoot
  | CloseMainWindow

text \<open>
  The state threaded through every operation: the outside world, the log of effects, and the
  list view's in-memory snapshot of the sessions (\<open>useState<PuttySession[]>\<close>).
\<close>

record 'w state =
  world :: 'w
  trace :: "event list"
  sessions :: "PuttySession list"

definition doExec :: "'w env \<Rightarrow> jsstring \<Rightarrow> 'w state \<Rightarrow> execResult \<times> 'w state" where
  "doExec env command st =
     (let (r, w) = exec env command (world st)
      in (r, st\<lparr>world := w, trace := trace st @ [Exec command]\<rparr>))"

definition showToast :: "toastStyle \<Rightarrow> jsstring \<Rightarrow> jsstring option \<Rightarrow> 'w state \<Rightarrow> 'w state" where
  "showToast style title message st = st\<lparr>trace := trace st @ [ShowToast style title message]\<rparr>"

definition popToRoot :: "'w state \<Rightarrow> 'w state" where
  "popToRoot st = st\<lparr>trace := trace st @ [PopToRoot]\<rparr>"

definition closeMainWindow :: "'w state \<Rightarrow> 'w state" where
  "closeMainWindow st = st\<lparr>trace := trace st @ [CloseMainWindow]\<rparr>"

definition fileExists :: "'w env \<Rightarrow> jsstring \<Rightarrow> 'w state \<Rightarrow> bool \<times> 'w state" where
  "fileExists env path st =
     (if access env path X_OK (world st) then
        (True, st\<lparr>trace := trace st @ [Access path X_OK True]\<rparr>)
      else if access env path R_OK (world st) then
        (True, st\<lparr>trace := trace st @ [Access path X_OK False, Access path R_OK True]\<rparr>)
      else
        (False, st\<lparr>trace := trace st @ [Access path X_OK False, Access path R_OK False]\<rparr>))"

text \<open>
  \<open>execFile(file, args, callback)\<close>: the launch, and the callback's failure toast when the
  launch fails. The callback runs later; its toast is logged right after the launch.
\<close>

definition execFile :: "'w env \<Rightarrow> jsstring \<Rightarrow> jsstring list \<Rightarrow> 'w state \<Rightarrow> 'w state" where
  "execFile env file args st =
     (let (err, w) = spawn env file args (world st);
          st' = st\<lparr>world := w, trace := trace st @ [ExecFile file args]\<rparr>
      in case err of
           None \<Rightarrow> st'
         | Some message \<Rightarrow> showToast Failure (js ''Failed to launch PuTTY'') (Some message) st')"

section \<open>The session record mapper\<close>

type_synonym Protocol = jsstring
type_synonym CloseOnExit = jsstring

record SessionValues =
  HostName :: jsstring
  PortNumber :: jsnum
  Protocol :: Protocol
  CloseOnExit :: CloseOnExit

definition sessionsRoot :: jsstring where
  "sessionsRoot =
     js ''HKCU'' @ [0x5C] @ js ''Software'' @ [0x5C] @ js ''SimonTatham'' @ [0x5C]
       @ js ''PuTTY'' @ [0x5C] @ js ''Sessions''"

text \<open>The key of a session: \<open>`HKCU\\...\\Sessions\\${encodeSessionKey(sessionName)}`\<close>.\<close>

definition sessionKey :: "jsstring \<Rightarrow> jsstring" where
  "sessionKey encoded = sessionsRoot @ [0x5C] @ encoded"

subsection \<open>writeRegistryValues (both files)\<close>

definition createKeyCommand :: "jsstring \<Rightarrow> jsstring" where
  "createKeyCommand baseKey = js ''reg add \"'' @ baseKey @ js ''\" /f''"

definition valueCommands :: "'w env \<Rightarrow> jsstring \<Rightarrow> SessionValues \<Rightarrow> jsstring list" where
  "valueCommands env baseKey values =
     [js ''reg add \"'' @ baseKey @ js ''\" /v HostName /t REG_SZ /d \"'' @ HostName values
        @ js ''\" /f'',
      js ''reg add \"'' @ baseKey @ js ''\" /v PortNumber /t REG_DWORD /d ''
        @ NumberToString env (PortNumber values) @ js '' /f'',
      js ''reg add \"'' @ baseKey @ js ''\" /v Protocol /t REG_SZ /d '' @ Protocol values
        @ js '' /f'',
      js ''reg add \"'' @ baseKey @ js ''\" /v CloseOnExit /t REG_SZ /d '' @ CloseOnExit values
        @ js '' /f'']"

function runNext ::
  "'w env \<Rightarrow> jsstring list \<Rightarrow> nat \<Rightarrow> 'w state \<Rightarrow> (jserror + unit) \<times> 'w state" where
  "runNext env commands index st =
     (if index \<ge> length commands then (Inr (), st)
      else
        (let cmd = commands ! index;
             (r, st') = doExec env cmd st
         in case error r of
              Some err2 \<Rightarrow> (Inl (ExecError err2), st')
            | None \<Rightarrow> runNext env commands (index + 1) st'))"
  by pat_completeness auto
termination
  by (relation "measure (\<lambda>(env, commands, index, st). length commands - index)") auto

declare runNext.simps [simp del]

text \<open>
  The promise of \<open>writeRegistryValues\<close>: \<open>Inr ()\<close> when it resolves, \<open>Inl\<close> when it rejects.
  A \<open>URIError\<close> thrown by \<open>encodeSessionKey\<close> inside the executor rejects the promise before
  any command is run.
\<close>

definition writeRegistryValues ::
  "'w env \<Rightarrow> jsstring \<Rightarrow> SessionValues \<Rightarrow> 'w state \<Rightarrow> (jserror + unit) \<times> 'w state" where
  "writeRegistryValues env sessionName values st =
     (case encodeSessionKey sessionName of
        Inl e \<Rightarrow> (Inl e, st)
      | Inr encoded \<Rightarrow>
          (let baseKey = sessionKey encoded;
               (r, st') = doExec env (createKeyCommand baseKey) st
           in case error r of
                Some err \<Rightarrow> (Inl (ExecError err), st')
              | None \<Rightarrow> runNext env (valueCommands env baseKey values) 0 st'))"

subsection \<open>Regular expressions\<close>











subsection \<open>parseInt (ECMAScript 19.2.5)\<close>





subsection \<open>readSessionValues\<close>





subsection \<open>listPuttySessions\<close>





section \<open>The forms and actions\<close>

text \<open>The values a submitted form hands to its handler. Every text field is a string.\<close>

record EditValues =
  host :: jsstring
  port :: jsstring
  protocol :: Protocol
  closeOnExit :: CloseOnExit

record FormValues = EditValues +
  save :: bool
  savedName :: "jsstring option"

text \<open>\<open>e?.message\<close> of a caught error.\<close>

definition errorMessage :: "jserror \<Rightarrow> jsstring option" where
  "errorMessage e = (case e of URIError \<Rightarrow> Some (js ''URI malformed'') | ExecError m \<Rightarrow> Some m)"

text \<open>\<open>a || b\<close> where \<open>a\<close> is a string or \<open>undefined\<close>: \<open>b\<close> when \<open>a\<close> is absent or empty.\<close>

definition orElse :: "jsstring option \<Rightarrow> jsstring \<Rightarrow> jsstring" where
  "orElse a b = (case a of None \<Rightarrow> b | Some s \<Rightarrow> if s = [] then b else s)"

subsection \<open>add-connection: Command.handleSubmit\<close>

text \<open>
  \<open>(values.save ? (values.savedName?.trim() || values.host.trim()) : "").trim()\<close>
\<close>

definition submitSessionName :: "FormValues \<Rightarrow> jsstring" where
  "submitSessionName values =
     trim (if save values then orElse (map_option trim (savedName values)) (trim (host values))
           else [])"

definition handleSubmit :: "'w env \<Rightarrow> jsstring \<Rightarrow> FormValues \<Rightarrow> 'w state \<Rightarrow> 'w state" where
  "handleSubmit env puttyPath values st =
     (let portNum = Number env (port values) in
      if host values = [] then showToast Failure (js ''Host is required'') None st
      else if \<not> Number_isInteger portNum \<or> num_le portNum 0 \<or> num_gt portNum 65535 then
        showToast Failure (js ''Invalid port'') None st
      else
        (let sessionName = submitSessionName values in
         if save values then
           (case writeRegistryValues env sessionName
                   \<lparr>HostName = host values, PortNumber = portNum, Protocol = protocol values,
                    CloseOnExit = closeOnExit values\<rparr> st of
              (Inl e, st1) \<Rightarrow>
                showToast Failure (js ''Failed to save session'') (errorMessage e) st1
            | (Inr u, st1) \<Rightarrow>
                (let st2 = showToast Success (js ''Session saved'') (Some sessionName) st1;
                     (exists, st3) = fileExists env puttyPath st2
                 in if \<not> exists then
                      showToast Failure (js ''PuTTY path not found'') (Some puttyPath) st3
                    else
                      closeMainWindow
                        (popToRoot (execFile env puttyPath [js ''-load'', sessionName] st3))))
         else st))"

subsection \<open>search-connections: the edit forms and the list actions\<close>

text \<open>
  \<open>EditConnectionForm.handleSubmit\<close>. The \<open>onUpdated\<close> callback is the no-op its only caller
  passes.
\<close>

definition EditConnectionForm_handleSubmit ::
  "'w env \<Rightarrow> jsstring \<Rightarrow> jsstring \<Rightarrow> EditValues \<Rightarrow> 'w state \<Rightarrow> 'w state" where
  "EditConnectionForm_handleSubmit env sessionName puttyPath values st =
     (let portNum = Number env (port values) in
      if host values = [] then showToast Failure (js ''Host is required'') None st
      else if \<not> Number_isInteger portNum \<or> num_le portNum 0 \<or> num_gt portNum 65535 then
        showToast Failure (js ''Invalid port'') None st
      else
        (case writeRegistryValues env sessionName
                \<lparr>HostName = host values, PortNumber = portNum, Protocol = protocol values,
                 CloseOnExit = closeOnExit values\<rparr> st of
           (Inl e, st1) \<Rightarrow>
             showToast Failure (js ''Failed to update session'') (errorMessage e) st1
         | (Inr u, st1) \<Rightarrow>
             (let st2 = showToast Success (js ''Session updated'') (Some sessionName) st1;
                  (exists, st3) = fileExists env puttyPath st2;
                  st4 = (if \<not> exists then
                           showToast Failure (js ''PuTTY path not found'') (Some puttyPath) st3
                         else execFile env puttyPath [js ''-load'', sessionName] st3)
              in closeMainWindow (popToRoot st4))))"

definition protocolToFlag :: "Protocol \<Rightarrow> jsstring" where
  "protocolToFlag p =
     (if p = js ''ssh'' then js ''-ssh''
      else if p = js ''telnet'' then js ''-telnet''
      else if p = js ''rlogin'' then js ''-rlogin''
      else if p = js ''serial'' then js ''-serial''
      else js ''-raw'')"

definition TempEditForm_handleSubmit ::
  "'w env \<Rightarrow> jsstring \<Rightarrow> EditValues \<Rightarrow> 'w state \<Rightarrow> 'w state" where
  "TempEditForm_handleSubmit env puttyPath values st =
     (let portNum = Number env (port values) in
      if host values = [] then showToast Failure (js ''Host is required'') None st
      else if \<not> Number_isInteger portNum \<or> num_le portNum 0 \<or> num_gt portNum 65535 then
        showToast Failure (js ''Invalid port'') None st
      else
        (let (exists, st1) = fileExists env puttyPath st in
         if \<not> exists then
           showToast Failure (js ''PuTTY path not found'') (Some puttyPath) st1
         else
           (let args = [protocolToFlag (protocol values), js ''-P'', NumberToString env portNum,
                        host values]
            in closeMainWindow (popToRoot (execFile env puttyPath args st1)))))"

definition launchSession :: "'w env \<Rightarrow> jsstring \<Rightarrow> jsstring \<Rightarrow> 'w state \<Rightarrow> 'w state" where
  "launchSession env puttyPath sessionName st =
     (let (exists, st1) = fileExists env puttyPath st in
      if \<not> exists then showToast Failure (js ''PuTTY path not found'') (Some puttyPath) st1
      else execFile env puttyPath [js ''-load'', sessionName] st1)"



section \<open>Round trip of session keys\<close>

lemma unat_of_nat16: "n < 65536 \<Longrightarrow> unat (of_nat n :: 16 word) = n"
  by (simp add: unat_of_nat)

lemma unat_hexDigitUpper:
  "d < 16 \<Longrightarrow> unat (hexDigitUpper d) = (if d < 10 then 48 + d else 55 + d)"
  unfolding hexDigitUpper_def by (auto simp del: of_nat_add simp: unat_of_nat16)

lemma hexValue_hexDigitUpper: "d < 16 \<Longrightarrow> hexValue (hexDigitUpper d) = Some d"
  unfolding hexValue_def word_le_nat_alt
  by (simp add: unat_hexDigitUpper)

lemma ParseHexOctet_pct:
  "b < 256 \<Longrightarrow> ParseHexOctet (hexDigitUpper (b div 16) # hexDigitUpper (b mod 16) # t) = Some b"
  by (simp add: ParseHexOctet_def hexValue_hexDigitUpper less_mult_imp_div_less)

lemma mod_add_const: "a mod m = 0 \<Longrightarrow> x < m \<Longrightarrow> (a + x) mod m = (x::nat)"
  by (metis add_0 mod_add_left_eq mod_less)

lemma split3: "(cp::nat) div 4096 * 4096 + cp div 64 mod 64 * 64 + cp mod 64 = cp"
proof -
  define A B Q R where "A = cp div 64 div 64" and "B = cp div 64 mod 64"
    and "Q = cp div 64" and "R = cp mod 64"
  have 1: "A * 64 + B = Q" by (simp add: A_def B_def Q_def)
  have 2: "Q * 64 + R = cp" by (simp add: Q_def R_def)
  have 3: "cp div 4096 = A" by (simp add: A_def div_mult2_eq [symmetric])
  have "A * 4096 + B * 64 + R = cp" using 1 2 by linarith
  then show ?thesis by (simp add: 3 B_def R_def)
qed

lemma split4:
  "(cp::nat) div 262144 * 262144 + cp div 4096 mod 64 * 4096 + cp div 64 mod 64 * 64 + cp mod 64
     = cp"
proof -
  define A B C where "A = cp div 4096 div 64" and "B = cp div 4096 mod 64" and "C = cp div 4096"
  have 1: "A * 64 + B = C" by (simp add: A_def B_def C_def)
  have 2: "C * 4096 + cp div 64 mod 64 * 64 + cp mod 64 = cp"
    unfolding C_def by (rule split3)
  have 3: "cp div 262144 = A" by (simp add: A_def div_mult2_eq [symmetric])
  define D where "D = cp div 64 mod 64 * 64 + cp mod 64"
  have "C * 4096 + D = cp" using 2 by (simp add: D_def)
  then have "A * 262144 + B * 4096 + D = cp" using 1 by linarith
  then show ?thesis by (simp add: 3 B_def D_def)
qed

lemma utf8Decode_2:
  assumes "0x80 \<le> cp" "cp < 0x800"
  shows "utf8Decode [0xC0 + cp div 64, 0x80 + cp mod 64] = Some cp"
proof -
  have "cp div 64 < 32" using assms by (simp add: div_less_iff_less_mult)
  then have a: "(192 + cp div 64) mod 32 = cp div 64" by (simp add: mod_add_const)
  have b: "(128 + cp mod 64) mod 64 = cp mod 64" by (simp add: mod_add_const)
  show ?thesis using assms
    unfolding utf8Decode_def isContinuation_def Let_def
    by (simp add: a b)
qed

lemma utf8Decode_3:
  assumes "0x800 \<le> cp" "cp < 0x10000" "\<not> (0xD800 \<le> cp \<and> cp \<le> 0xDFFF)"
  shows "utf8Decode [0xE0 + cp div 4096, 0x80 + cp div 64 mod 64, 0x80 + cp mod 64] = Some cp"
proof -
  have "cp div 4096 < 16" using assms by (simp add: div_less_iff_less_mult)
  then have a: "(224 + cp div 4096) mod 16 = cp div 4096" by (simp add: mod_add_const)
  have b: "(128 + cp div 64 mod 64) mod 64 = cp div 64 mod 64" by (simp add: mod_add_const)
  have c: "(128 + cp mod 64) mod 64 = cp mod 64" by (simp add: mod_add_const)
  show ?thesis using assms
    unfolding utf8Decode_def isContinuation_def Let_def
    by (simp add: a b c split3)
qed

lemma utf8Decode_4:
  assumes "0x10000 \<le> cp" "cp \<le> 0x10FFFF"
  shows "utf8Decode [0xF0 + cp div 262144, 0x80 + cp div 4096 mod 64, 0x80 + cp div 64 mod 64,
           0x80 + cp mod 64] = Some cp"
proof -
  have "cp div 262144 < 8" using assms by (simp add: div_less_iff_less_mult)
  then have a: "(240 + cp div 262144) mod 8 = cp div 262144" by (simp add: mod_add_const)
  have b: "(128 + cp div 4096 mod 64) mod 64 = cp div 4096 mod 64" by (simp add: mod_add_const)
  have c: "(128 + cp div 64 mod 64) mod 64 = cp div 64 mod 64" by (simp add: mod_add_const)
  have d: "(128 + cp mod 64) mod 64 = cp mod 64" by (simp add: mod_add_const)
  show ?thesis using assms
    unfolding utf8Decode_def isContinuation_def Let_def
    by (simp add: a b c d split4)
qed


lemma continuationBytes_pct:
  "\<forall>b\<in>set bs. b < 256 \<Longrightarrow> continuationBytes (length bs) (pctOctets bs @ k) = Some (bs, k)"
proof (induction bs)
  case Nil
  then show ?case by (simp add: pctOctets_def)
next
  case (Cons b bs)
  then have IH: "continuationBytes (length bs) (pctOctets bs @ k) = Some (bs, k)" by simp
  have b: "b < 256" using Cons.prems by simp
  have e: "pctOctets (b # bs) @ k
    = 0x25 # hexDigitUpper (b div 16) # hexDigitUpper (b mod 16) # (pctOctets bs @ k)"
    by (simp add: pctOctets_def pctOctet_def)
  show ?case
    unfolding e by (simp add: ParseHexOctet_pct [OF b] IH)
qed

lemma Decode_ascii:
  assumes "cp < 0x80"
  shows "Decode (pctOctets [cp] @ k) [] =
    (case Decode k [] of Inl e \<Rightarrow> Inl e | Inr R \<Rightarrow> Inr (of_nat cp # R))"
proof -
  have b: "cp < 256" using assms by simp
  have e: "pctOctets [cp] @ k = 0x25 # hexDigitUpper (cp div 16) # hexDigitUpper (cp mod 16) # k"
    by (simp add: pctOctets_def pctOctet_def)
  have l: "leadingOnes cp = 0" using assms by (simp add: leadingOnes_def)
  show ?thesis
    unfolding e by (simp add: ParseHexOctet_pct [OF b] l split: sum.splits)
qed

lemma Decode_multi:
  assumes b0: "b0 < 256" and bs: "\<forall>b\<in>set bs. b < 256"
    and n: "leadingOnes b0 = Suc (length bs)" and len: "0 < length bs" "length bs \<le> 3"
    and V: "utf8Decode (b0 # bs) = Some V"
  shows "Decode (pctOctets (b0 # bs) @ k) p =
    (case Decode k p of Inl e \<Rightarrow> Inl e | Inr R \<Rightarrow> Inr (UTF16EncodeCodePoint V @ R))"
proof -
  have e: "pctOctets (b0 # bs) @ k
    = 0x25 # hexDigitUpper (b0 div 16) # hexDigitUpper (b0 mod 16) # (pctOctets bs @ k)"
    by (simp add: pctOctets_def pctOctet_def)
  have c: "continuationBytes (length bs) (pctOctets bs @ k) = Some (bs, k)"
    using bs by (rule continuationBytes_pct)
  show ?thesis
    unfolding e using len
    by (simp add: ParseHexOctet_pct [OF b0] n c V split: sum.splits)
qed

definition isScalarValue :: "nat \<Rightarrow> bool" where
  "isScalarValue cp = (cp \<le> 0x10FFFF \<and> \<not> (0xD800 \<le> cp \<and> cp \<le> 0xDFFF))"

lemma mod64_less: "(x::nat) mod 64 < 128"
proof -
  have "x mod 64 < 64" by simp
  then show ?thesis by linarith
qed

lemma Decode_pct_scalar:
  assumes "isScalarValue cp" "0x80 \<le> cp"
  shows "Decode (pctOctets (utf8Octets cp) @ k) p =
    (case Decode k p of Inl e \<Rightarrow> Inl e | Inr R \<Rightarrow> Inr (UTF16EncodeCodePoint cp @ R))"
proof -
  have "cp < 0x800 \<or> (0x800 \<le> cp \<and> cp < 0x10000) \<or> (0x10000 \<le> cp \<and> cp \<le> 0x10FFFF)"
    using assms unfolding isScalarValue_def by linarith
  then consider (two) "cp < 0x800" | (three) "0x800 \<le> cp" "cp < 0x10000"
    | (four) "0x10000 \<le> cp" "cp \<le> 0x10FFFF"
    by blast
  then show ?thesis
  proof cases
    case two
    have q: "cp div 64 < 32" using two by (simp add: div_less_iff_less_mult)
    have o: "utf8Octets cp = [0xC0 + cp div 64, 0x80 + cp mod 64]"
      using assms two by (simp add: utf8Octets_def)
    show ?thesis unfolding o
      by (rule Decode_multi) (use q assms two in \<open>simp_all add: leadingOnes_def utf8Decode_2 mod64_less\<close>)
  next
    case three
    have q: "cp div 4096 < 16" using three by (simp add: div_less_iff_less_mult)
    have o: "utf8Octets cp = [0xE0 + cp div 4096, 0x80 + cp div 64 mod 64, 0x80 + cp mod 64]"
      using assms three by (simp add: utf8Octets_def)
    have s: "\<not> (0xD800 \<le> cp \<and> cp \<le> 0xDFFF)" using assms by (simp add: isScalarValue_def)
    show ?thesis unfolding o
      by (rule Decode_multi)
        (use q three s in \<open>simp_all add: leadingOnes_def utf8Decode_3 mod64_less\<close>)
  next
    case four
    have q: "cp div 262144 < 8" using four by (simp add: div_less_iff_less_mult)
    have o: "utf8Octets cp = [0xF0 + cp div 262144, 0x80 + cp div 4096 mod 64,
        0x80 + cp div 64 mod 64, 0x80 + cp mod 64]"
      using four by (simp add: utf8Octets_def)
    show ?thesis unfolding o
      by (rule Decode_multi)
        (use q four in \<open>simp_all add: leadingOnes_def utf8Decode_4 mod64_less\<close>)
  qed
qed


lemma alwaysUnescaped_props:
  assumes "C \<in> set alwaysUnescaped"
  shows "C \<noteq> 0x25" "\<not> isLeadingSurrogate C" "\<not> isTrailingSurrogate C"
  using assms
  by (auto simp: alwaysUnescaped_def js_def isLeadingSurrogate_def isTrailingSurrogate_def)

lemma CodePointAt_single:
  "\<not> isLeadingSurrogate C \<Longrightarrow> \<not> isTrailingSurrogate C \<Longrightarrow>
   CodePointAt (C # rest) = \<lparr>CodePoint = unat C, CodeUnitCount = 1, IsUnpairedSurrogate = False\<rparr>"
  by (simp add: CodePointAt_def)

lemma CodePointAt_cases:
  assumes "\<not> IsUnpairedSurrogate (CodePointAt (C # rest))"
  obtains (single) "\<not> isLeadingSurrogate C" "\<not> isTrailingSurrogate C"
      "CodePointAt (C # rest) = \<lparr>CodePoint = unat C, CodeUnitCount = 1, IsUnpairedSurrogate = False\<rparr>"
    | (pair) D rest' where "rest = D # rest'" "isLeadingSurrogate C" "isTrailingSurrogate D"
      "CodePointAt (C # rest) = \<lparr>CodePoint = UTF16SurrogatePairToCodePoint C D, CodeUnitCount = 2,
         IsUnpairedSurrogate = False\<rparr>"
  using assms
  by (cases rest) (auto simp: CodePointAt_def Let_def split: if_splits)

lemma unat16_bound: "unat (c :: 16 word) < 65536"
  using unsigned_less [of c, where 'a = nat] by simp

lemma scalar_single:
  "\<not> isLeadingSurrogate C \<Longrightarrow> \<not> isTrailingSurrogate C \<Longrightarrow> isScalarValue (unat C)"
  using unat16_bound [of C]
  by (auto simp: isScalarValue_def isLeadingSurrogate_def isTrailingSurrogate_def word_le_nat_alt)

lemma UTF16Encode_single: "UTF16EncodeCodePoint (unat (C :: 16 word)) = [C]"
  using unat16_bound [of C] by (simp add: UTF16EncodeCodePoint_def)

lemma pair_arith:
  assumes "isLeadingSurrogate C" "isTrailingSurrogate D"
  shows "0x10000 \<le> UTF16SurrogatePairToCodePoint C D"
    and "UTF16SurrogatePairToCodePoint C D \<le> 0x10FFFF"
    and "(UTF16SurrogatePairToCodePoint C D - 0x10000) div 0x400 + 0xD800 = unat C"
    and "(UTF16SurrogatePairToCodePoint C D - 0x10000) mod 0x400 + 0xDC00 = unat D"
proof -
  define a b where "a = unat C - 0xD800" and "b = unat D - 0xDC00"
  have C: "0xD800 \<le> unat C" "unat C \<le> 0xDBFF" and D: "0xDC00 \<le> unat D" "unat D \<le> 0xDFFF"
    using assms by (simp_all add: isLeadingSurrogate_def isTrailingSurrogate_def word_le_nat_alt)
  have a: "a < 1024" "unat C = a + 0xD800" and b: "b < 1024" "unat D = b + 0xDC00"
    using C D by (simp_all add: a_def b_def)
  have cp: "UTF16SurrogatePairToCodePoint C D = a * 1024 + b + 0x10000"
    by (simp add: UTF16SurrogatePairToCodePoint_def a_def b_def)
  show "0x10000 \<le> UTF16SurrogatePairToCodePoint C D" by (simp add: cp)
  show "UTF16SurrogatePairToCodePoint C D \<le> 0x10FFFF" using a(1) b(1) by (simp add: cp)
  have d: "(a * 1024 + b) div 1024 = a" using b(1) by simp
  have m: "(a * 1024 + b) mod 1024 = b" using b(1) by (simp add: mod_less)
  show "(UTF16SurrogatePairToCodePoint C D - 0x10000) div 0x400 + 0xD800 = unat C"
    using b(1) by (simp add: cp a(2))
  show "(UTF16SurrogatePairToCodePoint C D - 0x10000) mod 0x400 + 0xDC00 = unat D"
    using b(1) by (simp add: cp b(2))
qed

lemma unsigned_of_nat_unat16: "of_nat (unat (c :: 16 word)) = c"
  by simp

lemma scalar_pair:
  "isLeadingSurrogate C \<Longrightarrow> isTrailingSurrogate D \<Longrightarrow>
   isScalarValue (UTF16SurrogatePairToCodePoint C D)"
  using pair_arith(1,2) [of C D] by (simp add: isScalarValue_def)

lemma UTF16Encode_pair:
  assumes "isLeadingSurrogate C" "isTrailingSurrogate D"
  shows "UTF16EncodeCodePoint (UTF16SurrogatePairToCodePoint C D) = [C, D]"
proof -
  have "\<not> UTF16SurrogatePairToCodePoint C D \<le> 0xFFFF"
    using pair_arith(1) [OF assms] by simp
  then show ?thesis
    unfolding UTF16EncodeCodePoint_def
    by (simp only: if_False pair_arith(3,4) [OF assms] unsigned_of_nat_unat16)
qed


lemma Decode_Encode:
  "IsStringWellFormedUnicode s \<Longrightarrow> \<exists>k. Encode s [] = Inr k \<and> Decode k [] = Inr s"
proof (induction s rule: IsStringWellFormedUnicode.induct)
  case 1
  show ?case by simp
next
  case (2 C rest)
  let ?cp = "CodePointAt (C # rest)"
  let ?tl = "drop (CodeUnitCount ?cp) (C # rest)"
  from "2.prems" have np: "\<not> IsUnpairedSurrogate ?cp" and wf: "IsStringWellFormedUnicode ?tl"
    by (auto simp: Let_def split: if_splits)
  from "2.IH" [OF refl np wf] obtain k where k: "Encode ?tl [] = Inr k" "Decode k [] = Inr ?tl"
    by blast
  show ?case
  proof (cases "C \<in> set alwaysUnescaped")
    case True
    note u = alwaysUnescaped_props [OF True]
    have "?tl = rest" by (simp add: CodePointAt_single [OF u(2,3)])
    with k have "Encode (C # rest) [] = Inr (C # k)" "Decode (C # k) [] = Inr (C # rest)"
      using True u(1) by simp_all
    then show ?thesis by blast
  next
    case False
    then have E: "Encode (C # rest) [] = Inr (pctOctets (utf8Octets (CodePoint ?cp)) @ k)"
      using np k(1) by (simp add: Let_def)
    from np have "Decode (pctOctets (utf8Octets (CodePoint ?cp)) @ k) [] = Inr (C # rest)"
    proof (cases rule: CodePointAt_cases)
      case single
      have t: "?tl = rest" by (simp add: single(3))
      show ?thesis
      proof (cases "unat C < 0x80")
        case True
        then have "utf8Octets (CodePoint ?cp) = [unat C]" by (simp add: single(3) utf8Octets_def)
        then show ?thesis using Decode_ascii [OF True, of k] k(2) t by simp
      next
        case False
        then have "0x80 \<le> unat C" by simp
        from Decode_pct_scalar [OF scalar_single [OF single(1,2)] this, of k "[]"]
        show ?thesis using k(2) t by (simp add: single(3) UTF16Encode_single)
      qed
    next
      case (pair D rest')
      have cpeq: "CodePointAt (C # D # rest') = \<lparr>CodePoint = UTF16SurrogatePairToCodePoint C D,
          CodeUnitCount = 2, IsUnpairedSurrogate = False\<rparr>"
        using pair(4) by (simp add: pair(1))
      have t: "?tl = rest'" by (simp add: pair(1) cpeq)
      have "0x80 \<le> UTF16SurrogatePairToCodePoint C D"
        using pair_arith(1) [OF pair(2,3)] by simp
      from Decode_pct_scalar [OF scalar_pair [OF pair(2,3)] this, of k "[]"]
      show ?thesis using k(2) t by (simp add: cpeq UTF16Encode_pair [OF pair(2,3)] pair(1))
    qed
    with E show ?thesis by blast
  qed
qed

lemma Encode_illformed:
  "\<not> IsStringWellFormedUnicode s \<Longrightarrow> Encode s [] = Inl URIError"
proof (induction s rule: IsStringWellFormedUnicode.induct)
  case 1
  then show ?case by simp
next
  case (2 C rest)
  let ?cp = "CodePointAt (C # rest)"
  let ?tl = "drop (CodeUnitCount ?cp) (C # rest)"
  show ?case
  proof (cases "IsUnpairedSurrogate ?cp")
    case True
    have "C \<notin> set alwaysUnescaped"
    proof
      assume "C \<in> set alwaysUnescaped"
      from alwaysUnescaped_props(2,3) [OF this] have "\<not> IsUnpairedSurrogate ?cp"
        by (simp add: CodePointAt_single)
      with True show False by simp
    qed
    then show ?thesis using True by (simp add: Let_def)
  next
    case False
    with "2.prems" have "\<not> IsStringWellFormedUnicode ?tl" by (simp add: Let_def)
    from "2.IH" [OF refl False this] have E: "Encode ?tl [] = Inl URIError" .
    show ?thesis
    proof (cases "C \<in> set alwaysUnescaped")
      case True
      note u = alwaysUnescaped_props [OF True]
      have "?tl = rest" by (simp add: CodePointAt_single [OF u(2,3)])
      with E True show ?thesis by simp
    next
      case False
      with E \<open>\<not> IsUnpairedSurrogate ?cp\<close> show ?thesis by (simp add: Let_def)
    qed
  qed
qed

text \<open>
  C1 (as amended). For every name that is well-formed UTF-16 (no unpaired surrogate), which
  includes every name containing reserved registry-path characters such as the backslash,
  \<open>encodeSessionKey\<close> returns a key segment and \<open>decodeSessionKey\<close> of that segment is the
  original name. For a name with an unpaired surrogate \<open>encodeSessionKey\<close> raises
  \<open>URIError\<close>, so there is nothing to decode.
\<close>

theorem C1_roundtrip_wellformed:
  "(IsStringWellFormedUnicode name \<longrightarrow>
      (\<exists>k. encodeSessionKey name = Inr k \<and> decodeSessionKey k = name))
   \<and> (\<not> IsStringWellFormedUnicode name \<longrightarrow> encodeSessionKey name = Inl URIError)"
proof (intro conjI impI)
  assume "IsStringWellFormedUnicode name"
  from Decode_Encode [OF this] obtain k where "Encode name [] = Inr k" "Decode k [] = Inr name"
    by blast
  then have "encodeSessionKey name = Inr k \<and> decodeSessionKey k = name"
    by (simp add: encodeSessionKey_def encodeURIComponent_def decodeSessionKey_def
        decodeURIComponent_def)
  then show "\<exists>k. encodeSessionKey name = Inr k \<and> decodeSessionKey k = name" ..
next
  assume "\<not> IsStringWellFormedUnicode name"
  then show "encodeSessionKey name = Inl URIError"
    by (simp add: encodeSessionKey_def encodeURIComponent_def Encode_illformed)
qed

text \<open>The name \<open>my box\1/2%\<close>, with a space, a backslash, a slash and a percent sign.\<close>

theorem C1_roundtrip_wellformed_witness:
  "encodeSessionKey (js ''my box'' @ [0x5C] @ js ''1/2%'') = Inr (js ''my%20box%5C1%2F2%25'')
   \<and> decodeSessionKey (js ''my%20box%5C1%2F2%25'') = js ''my box'' @ [0x5C] @ js ''1/2%''"
proof -
  let ?n = "js ''my box'' @ [0x5C] @ js ''1/2%''"
  have wf: "IsStringWellFormedUnicode ?n"
    by (simp add: js_def CodePointAt_def isLeadingSurrogate_def isTrailingSurrogate_def)
  have e: "encodeSessionKey ?n = Inr (js ''my%20box%5C1%2F2%25'')"
    by (simp add: encodeSessionKey_def encodeURIComponent_def js_def alwaysUnescaped_def Let_def
        CodePointAt_def isLeadingSurrogate_def isTrailingSurrogate_def utf8Octets_def
        pctOctets_def pctOctet_def hexDigitUpper_def)
  from C1_roundtrip_wellformed [of ?n] wf obtain k
    where "encodeSessionKey ?n = Inr k" "decodeSessionKey k = ?n"
    by blast
  with e show ?thesis by simp
qed

text \<open>
  C1 as stated fails: the one-unit string holding the unpaired surrogate 0xD800 has no
  encoding (\<open>encodeURIComponent\<close> throws), hence no round trip.
\<close>

theorem C1_lone_surrogate_counterexample:
  "encodeSessionKey [0xD800] = Inl URIError
   \<and> \<not> (\<exists>k. encodeSessionKey [0xD800] = Inr k \<and> decodeSessionKey k = [0xD800])"
  by (simp add: encodeSessionKey_def encodeURIComponent_def js_def alwaysUnescaped_def
      CodePointAt_def isLeadingSurrogate_def isTrailingSurrogate_def)

section \<open>The steps of writeRegistryValues\<close>

text \<open>
  Vocabulary for the steps of a write: the world after a list of commands has run, the
  error (if any) of the \<open>i\<close>-th command of a list when the list is run in order, and the five
  commands of a write in the order the source issues them.
\<close>

definition worldAfter :: "'w env \<Rightarrow> jsstring list \<Rightarrow> 'w \<Rightarrow> 'w" where
  "worldAfter env commands w = fold (\<lambda>c w'. snd (exec env c w')) commands w"

definition stepError :: "'w env \<Rightarrow> jsstring list \<Rightarrow> 'w \<Rightarrow> nat \<Rightarrow> jsstring option" where
  "stepError env commands w i =
     error (fst (exec env (commands ! i) (worldAfter env (take i commands) w)))"

definition writeCommands :: "'w env \<Rightarrow> jsstring \<Rightarrow> SessionValues \<Rightarrow> jsstring list" where
  "writeCommands env baseKey values = createKeyCommand baseKey # valueCommands env baseKey values"

text \<open>Running a list of commands until the first one fails: the loop of \<open>runNext\<close>.\<close>

fun seqRun :: "'w env \<Rightarrow> jsstring list \<Rightarrow> 'w state \<Rightarrow> (jserror + unit) \<times> 'w state" where
  "seqRun env [] st = (Inr (), st)"
| "seqRun env (c # cs) st =
     (let (r, st') = doExec env c st
      in case error r of
           Some e \<Rightarrow> (Inl (ExecError e), st')
         | None \<Rightarrow> seqRun env cs st')"

lemma runNext_seqRun:
  "runNext env commands i st = seqRun env (drop i commands) st"
proof (induction "length commands - i" arbitrary: i st)
  case 0
  then show ?case by (simp add: runNext.simps)
next
  case (Suc d)
  then have lt: "i < length commands" and d: "d = length commands - (i + 1)" by simp_all
  have dr: "drop i commands = commands ! i # drop (i + 1) commands"
    using lt by (simp add: Cons_nth_drop_Suc)
  show ?case
    unfolding dr
    using lt Suc.hyps(1) [OF d]
    by (subst runNext.simps) (simp add: Let_def split: prod.splits option.splits)
qed

lemma stepError_Cons_Suc:
  "stepError env (c # cs) w (Suc i) = stepError env cs (snd (exec env c w)) i"
  by (simp add: stepError_def worldAfter_def)

lemma seqRun_char:
  "seqRun env cs st = (res, st') \<Longrightarrow>
   \<exists>n\<le>length cs.
     trace st' = trace st @ map Exec (take n cs)
     \<and> world st' = worldAfter env (take n cs) (world st)
     \<and> sessions st' = sessions st
     \<and> (\<forall>i<n. Suc i < n \<longrightarrow> stepError env cs (world st) i = None)
     \<and> (case res of
          Inr u \<Rightarrow> n = length cs \<and> (\<forall>i<n. stepError env cs (world st) i = None)
        | Inl e \<Rightarrow> 0 < n \<and> (\<exists>m. e = ExecError m \<and> stepError env cs (world st) (n - 1) = Some m))"
proof (induction cs arbitrary: st)
  case Nil
  then show ?case by (auto simp: worldAfter_def)
next
  case (Cons c cs)
  obtain r w where e: "exec env c (world st) = (r, w)" by force
  let ?st1 = "st\<lparr>world := w, trace := trace st @ [Exec c]\<rparr>"
  have d: "doExec env c st = (r, ?st1)" by (simp add: doExec_def e)
  show ?case
  proof (cases "error r")
    case (Some m)
    with Cons.prems d have "res = Inl (ExecError m)" "st' = ?st1" by simp_all
    then show ?thesis
      using Some e by (intro exI [of _ 1]) (simp add: worldAfter_def stepError_def)
  next
    case None
    with Cons.prems d have "seqRun env cs ?st1 = (res, st')" by simp
    from Cons.IH [OF this] obtain n where n: "n \<le> length cs"
      "trace st' = trace ?st1 @ map Exec (take n cs)"
      "world st' = worldAfter env (take n cs) (world ?st1)"
      "sessions st' = sessions ?st1"
      "\<forall>i<n. Suc i < n \<longrightarrow> stepError env cs (world ?st1) i = None"
      "case res of
          Inr u \<Rightarrow> n = length cs \<and> (\<forall>i<n. stepError env cs (world ?st1) i = None)
        | Inl e \<Rightarrow> 0 < n \<and> (\<exists>m. e = ExecError m \<and> stepError env cs (world ?st1) (n - 1) = Some m)"
      by blast
    have s0: "stepError env (c # cs) (world st) 0 = None"
      using None e by (simp add: stepError_def worldAfter_def)
    have sS: "\<And>i. stepError env (c # cs) (world st) (Suc i) = stepError env cs w i"
      by (simp add: stepError_Cons_Suc e)
    have all: "\<And>P. (\<forall>i<Suc n. P i) = (P 0 \<and> (\<forall>i<n. P (Suc i)))"
      by (metis less_Suc_eq_0_disj Suc_less_eq zero_less_Suc)
    show ?thesis
    proof (intro exI [of _ "Suc n"] conjI)
      show "Suc n \<le> length (c # cs)" using n(1) by simp
      show "trace st' = trace st @ map Exec (take (Suc n) (c # cs))" using n(2) by simp
      show "world st' = worldAfter env (take (Suc n) (c # cs)) (world st)"
        using n(3) e by (simp add: worldAfter_def)
      show "sessions st' = sessions st" using n(4) by simp
      show "\<forall>i<Suc n. Suc i < Suc n \<longrightarrow> stepError env (c # cs) (world st) i = None"
        using n(5) s0 by (simp add: all sS)
      show "case res of
          Inr u \<Rightarrow> Suc n = length (c # cs) \<and> (\<forall>i<Suc n. stepError env (c # cs) (world st) i = None)
        | Inl e \<Rightarrow> 0 < Suc n \<and>
            (\<exists>m. e = ExecError m \<and> stepError env (c # cs) (world st) (Suc n - 1) = Some m)"
      proof (cases res)
        case (Inr u)
        with n(6) s0 show ?thesis by (auto simp: sS less_Suc_eq_0_disj)
      next
        case (Inl e')
        with n(6) obtain m where "0 < n" "e' = ExecError m"
          "stepError env cs w (n - 1) = Some m" by auto
        then show ?thesis using Inl sS [of "n - 1"] by simp
      qed
    qed
  qed
qed

lemma writeRegistryValues_seqRun:
  "encodeSessionKey sessionName = Inr k \<Longrightarrow>
   writeRegistryValues env sessionName values st
     = seqRun env (writeCommands env (sessionKey k) values) st"
  by (simp add: writeRegistryValues_def writeCommands_def runNext_seqRun Let_def
      split: prod.splits option.splits)


subsection \<open>An example platform\<close>

text \<open>
  A platform for the examples. Its world counts the shell commands run so far; the command
  number \<open>failAt\<close> fails; every file check answers \<open>pathOk\<close>; \<open>Number\<close> agrees with JavaScript
  on the texts the examples use ("22", "0", "65536", "2.5", and \<open>NaN\<close> as for "abc").
\<close>

definition exampleNumber :: "jsstring \<Rightarrow> jsnum" where
  "exampleNumber s =
     (if s = js ''22'' then Fin 22
      else if s = js ''0'' then Fin 0
      else if s = js ''65536'' then Fin 65536
      else if s = js ''2.5'' then Fin 2.5
      else NaN)"

text \<open>
  The comparison of the examples orders strings by their code units. (The locale order agrees
  with it on strings of lower-case ASCII letters and digits.)
\<close>

fun compareUnits :: "jsstring \<Rightarrow> jsstring \<Rightarrow> int" where
  "compareUnits [] [] = 0"
| "compareUnits [] (b # bs) = - 1"
| "compareUnits (a # as) [] = 1"
| "compareUnits (a # as) (b # bs) =
     (if a < b then - 1 else if b < a then 1 else compareUnits as bs)"

definition exampleEnv :: "nat \<Rightarrow> bool \<Rightarrow> nat env" where
  "exampleEnv failAt pathOk =
     \<lparr>exec = (\<lambda>c w. (\<lparr>error = (if w = failAt then Some (js ''Access is denied.'') else None),
                        stdout = []\<rparr>, Suc w)),
      access = (\<lambda>p m w. pathOk),
      spawn = (\<lambda>f a w. (None, w)),
      Number = exampleNumber,
      fractionToString = (\<lambda>r. []),
      localeCompare = compareUnits\<rparr>"


definition initialState :: "nat state" where
  "initialState = \<lparr>world = 0, trace = [], sessions = []\<rparr>"

section \<open>An idealised registry\<close>

text \<open>
  The registry and \<open>reg.exe\<close> are outside the sources. For the claims that speak about what
  the registry answers, this section gives an idealised one over the Sessions subtree: a list
  of session keys (the key segment after \<open>Sessions\\<close>), each with its named values in the
  order they were first set. Command lines are split at spaces, with double quotes grouping
  (and no other shell syntax); keys and value names compare exactly; \<open>reg query\<close> prints as
  \<open>reg.exe\<close> does: the key, then one line per value (four spaces, name, four spaces, type,
  four spaces, data; a DWORD as \<open>0x\<close> and lower-case hexadecimal digits), lines ended by CR LF.
\<close>

datatype regdata = REG_SZ jsstring | REG_DWORD nat


























section \<open>Validation before any write\<close>

text \<open>The port policy in the specification's words: an integer in \<open>[1, 65535]\<close>.\<close>

definition portInRange :: "jsnum \<Rightarrow> bool" where
  "portInRange x =
     (case x of Fin r \<Rightarrow> of_int \<lfloor>r\<rfloor> = r \<and> 1 \<le> r \<and> r \<le> 65535 | _ \<Rightarrow> False)"

lemma portInRange_iff:
  "portInRange x = (Number_isInteger x \<and> \<not> num_le x 0 \<and> \<not> num_gt x 65535)"
proof (cases x)
  case (Fin r)
  have "of_int \<lfloor>r\<rfloor> = r \<Longrightarrow> \<not> r \<le> 0 \<Longrightarrow> 1 \<le> r"
  proof -
    assume "of_int \<lfloor>r\<rfloor> = r" and p: "\<not> r \<le> 0"
    then obtain z :: int where z: "r = of_int z" by metis
    with p have "0 < z" by simp
    then have "1 \<le> z" by simp
    then show "1 \<le> r" using z by simp
  qed
  then show ?thesis using Fin
    by (auto simp: Number_isInteger_def num_le_def num_gt_def portInRange_def)
qed (simp_all add: Number_isInteger_def num_le_def num_gt_def portInRange_def)

lemma portInRange_nat:
  assumes "portInRange x"
  obtains n :: nat where "x = Fin (real n)" "1 \<le> n" "n \<le> 65535"
proof -
  from assms obtain r where r: "x = Fin r" "of_int \<lfloor>r\<rfloor> = r" "1 \<le> r" "r \<le> 65535"
    by (cases x) (simp_all add: portInRange_def)
  then obtain z :: int where z: "r = of_int z" by metis
  with r have "1 \<le> z" "z \<le> 65535" by simp_all
  then have "x = Fin (real (nat z))" "1 \<le> nat z" "nat z \<le> 65535"
    using r(1) z by simp_all
  then show ?thesis by (rule that)
qed

lemma NumberToString_nat:
  "n \<le> 65535 \<Longrightarrow> NumberToString env (Fin (real n)) = decimalDigits n"
proof -
  assume n: "n \<le> 65535"
  have "real n < 10 ^ 21"
  proof -
    have "real n \<le> 65535" using n by simp
    also have "\<dots> < (10::real) ^ 21" by simp
    finally show ?thesis .
  qed
  then show ?thesis by (simp add: NumberToString_def)
qed

lemma handleSubmit_invalid:
  "host v = [] \<or> \<not> portInRange (Number env (port v)) \<Longrightarrow>
   handleSubmit env puttyPath v st
     = st\<lparr>trace := trace st @ [ShowToast Failure
          (if host v = [] then js ''Host is required'' else js ''Invalid port'') None]\<rparr>"
  by (auto simp: handleSubmit_def Let_def showToast_def portInRange_iff)

lemma EditConnectionForm_handleSubmit_invalid:
  "host ev = [] \<or> \<not> portInRange (Number env (port ev)) \<Longrightarrow>
   EditConnectionForm_handleSubmit env sessionName puttyPath ev st
     = st\<lparr>trace := trace st @ [ShowToast Failure
          (if host ev = [] then js ''Host is required'' else js ''Invalid port'') None]\<rparr>"
  by (auto simp: EditConnectionForm_handleSubmit_def Let_def showToast_def portInRange_iff)

text \<open>
  C3. When the host is empty, or the number the port text converts to is not an integer in
  \<open>[1, 65535]\<close> (not an integer, 0, 65536, or anything else outside the range), the create form
  and the edit form do nothing but show one failure toast ("Host is required" or "Invalid
  port"): no command is run, the world is unchanged, \<open>writeRegistryValues\<close> is not reached.
\<close>

theorem C3_validation:
  "(host v = [] \<or> \<not> portInRange (Number env (port v)) \<longrightarrow>
      handleSubmit env puttyPath v st
        = st\<lparr>trace := trace st @ [ShowToast Failure
             (if host v = [] then js ''Host is required'' else js ''Invalid port'') None]\<rparr>)
   \<and> (host ev = [] \<or> \<not> portInRange (Number env (port ev)) \<longrightarrow>
      EditConnectionForm_handleSubmit env sessionName puttyPath ev st
        = st\<lparr>trace := trace st @ [ShowToast Failure
             (if host ev = [] then js ''Host is required'' else js ''Invalid port'') None]\<rparr>)"
proof (intro conjI impI)
  assume "host v = [] \<or> \<not> portInRange (Number env (port v))"
  then show "handleSubmit env puttyPath v st
        = st\<lparr>trace := trace st @ [ShowToast Failure
             (if host v = [] then js ''Host is required'' else js ''Invalid port'') None]\<rparr>"
    by (rule handleSubmit_invalid)
next
  assume "host ev = [] \<or> \<not> portInRange (Number env (port ev))"
  then show "EditConnectionForm_handleSubmit env sessionName puttyPath ev st
        = st\<lparr>trace := trace st @ [ShowToast Failure
             (if host ev = [] then js ''Host is required'' else js ''Invalid port'') None]\<rparr>"
    by (rule EditConnectionForm_handleSubmit_invalid)
qed

text \<open>Form values for the examples.\<close>

definition exampleForm :: "jsstring \<Rightarrow> jsstring \<Rightarrow> FormValues" where
  "exampleForm h p =
     \<lparr>host = h, port = p, protocol = js ''ssh'', closeOnExit = js ''never'', save = True,
      savedName = Some (js ''testbox'')\<rparr>"

definition exampleEdit :: "jsstring \<Rightarrow> jsstring \<Rightarrow> EditValues" where
  "exampleEdit h p = \<lparr>host = h, port = p, protocol = js ''ssh'', closeOnExit = js ''never''\<rparr>"

lemma exampleNumber_values:
  "exampleNumber (js ''22'') = Fin 22" "exampleNumber (js ''0'') = Fin 0"
  "exampleNumber (js ''65536'') = Fin 65536" "exampleNumber (js ''2.5'') = Fin 2.5"
  "exampleNumber (js ''abc'') = NaN"
  by (simp_all add: exampleNumber_def js_def)

text \<open>Port 65536 on the create form, an empty host on the edit form.\<close>

theorem C3_validation_witness:
  "\<not> portInRange (Number (exampleEnv 9 True) (js ''65536''))
   \<and> \<not> portInRange (Number (exampleEnv 9 True) (js ''0''))
   \<and> \<not> portInRange (Number (exampleEnv 9 True) (js ''2.5''))
   \<and> \<not> portInRange (Number (exampleEnv 9 True) (js ''abc''))
   \<and> handleSubmit (exampleEnv 9 True) (js ''putty.exe'') (exampleForm (js ''10.0.0.5'') (js ''65536''))
        initialState
       = \<lparr>world = 0, trace = [ShowToast Failure (js ''Invalid port'') None], sessions = []\<rparr>
   \<and> EditConnectionForm_handleSubmit (exampleEnv 9 True) (js ''testbox'') (js ''putty.exe'')
        (exampleEdit [] (js ''22'')) initialState
       = \<lparr>world = 0, trace = [ShowToast Failure (js ''Host is required'') None], sessions = []\<rparr>"
proof -
  have n: "\<not> portInRange (Number (exampleEnv 9 True) (js ''65536''))"
    "\<not> portInRange (Number (exampleEnv 9 True) (js ''0''))"
    "\<not> portInRange (Number (exampleEnv 9 True) (js ''2.5''))"
    "\<not> portInRange (Number (exampleEnv 9 True) (js ''abc''))"
    by (simp_all add: exampleEnv_def exampleNumber_values portInRange_def)
  have h: "host (exampleForm (js ''10.0.0.5'') (js ''65536'')) \<noteq> []"
    "port (exampleForm (js ''10.0.0.5'') (js ''65536'')) = js ''65536''"
    "host (exampleEdit [] (js ''22'')) = []"
    by (simp_all add: exampleForm_def exampleEdit_def js_def)
  from C3_validation [where v = "exampleForm (js ''10.0.0.5'') (js ''65536'')"
      and env = "exampleEnv 9 True" and ev = "exampleEdit [] (js ''22'')"
      and puttyPath = "js ''putty.exe''" and st = initialState and sessionName = "js ''testbox''"]
  show ?thesis using n h by (simp add: initialState_def)
qed


section \<open>Launching the executable\<close>

text \<open>
  \<open>guardedFrom p prev evs\<close>: every launch in \<open>evs\<close> is a launch of \<open>p\<close> and comes right after a
  successful access check of \<open>p\<close> (\<open>prev\<close> is the event before \<open>evs\<close>). \<open>launchGuard p new\<close> adds:
  when the check of \<open>p\<close> failed (both access modes refused), \<open>new\<close> holds no launch and holds
  the "PuTTY path not found" toast.
\<close>

fun guardedFrom :: "jsstring \<Rightarrow> event option \<Rightarrow> event list \<Rightarrow> bool" where
  "guardedFrom p prev [] = True"
| "guardedFrom p prev (e # es) =
     ((case e of
         ExecFile f a \<Rightarrow> f = p \<and> (prev = Some (Access p X_OK True) \<or> prev = Some (Access p R_OK True))
       | _ \<Rightarrow> True)
      \<and> guardedFrom p (Some e) es)"

definition isLaunch :: "event \<Rightarrow> bool" where
  "isLaunch e = (case e of ExecFile f a \<Rightarrow> True | _ \<Rightarrow> False)"

definition launchGuard :: "jsstring \<Rightarrow> event list \<Rightarrow> bool" where
  "launchGuard p new =
     (guardedFrom p None new
      \<and> (Access p R_OK False \<in> set new \<longrightarrow>
           filter isLaunch new = []
           \<and> ShowToast Failure (js ''PuTTY path not found'') (Some p) \<in> set new))"

lemma guardedFrom_Exec:
  "guardedFrom p prev (map Exec cs @ ShowToast s t m # es) = guardedFrom p (Some (ShowToast s t m)) es"
  by (induction cs arbitrary: prev) simp_all

lemma filter_isLaunch_Exec [simp]: "filter isLaunch (map Exec cs) = []"
  by (induction cs) (simp_all add: isLaunch_def)

lemma not_in_Exec [simp]:
  "Access p m b \<notin> Exec ` S" "ShowToast s t m' \<notin> Exec ` S"
  by auto

lemma write_trace:
  assumes "writeRegistryValues env n v st = (res, st')"
  shows "\<exists>cs. trace st' = trace st @ map Exec cs"
proof (cases "encodeSessionKey n")
  case (Inl e)
  with assms have "st' = st" by (simp add: writeRegistryValues_def)
  then show ?thesis by (intro exI [of _ "[]"]) simp
next
  case (Inr k)
  with assms have "seqRun env (writeCommands env (sessionKey k) v) st = (res, st')"
    by (simp add: writeRegistryValues_seqRun)
  from seqRun_char [OF this] show ?thesis by blast
qed

lemma launchSession_guard:
  "\<exists>new. trace (launchSession env p n st) = trace st @ new \<and> launchGuard p new"
  by (simp add: launchSession_def fileExists_def execFile_def showToast_def launchGuard_def
      isLaunch_def Let_def split: prod.splits option.splits)

lemma TempEditForm_guard:
  "\<exists>new. trace (TempEditForm_handleSubmit env p v st) = trace st @ new \<and> launchGuard p new"
  by (simp add: TempEditForm_handleSubmit_def fileExists_def execFile_def showToast_def
      launchGuard_def isLaunch_def Let_def popToRoot_def closeMainWindow_def
      split: prod.splits option.splits)

lemma EditConnectionForm_guard:
  "\<exists>new. trace (EditConnectionForm_handleSubmit env n p v st) = trace st @ new
     \<and> launchGuard p new"
proof -
  obtain res st1 where w: "writeRegistryValues env n
      \<lparr>HostName = host v, PortNumber = Number env (port v), Protocol = protocol v,
       CloseOnExit = closeOnExit v\<rparr> st = (res, st1)"
    by force
  from write_trace [OF w] obtain cs where cs: "trace st1 = trace st @ map Exec cs" by blast
  show ?thesis
    by (cases res)
      (simp_all add: EditConnectionForm_handleSubmit_def w cs fileExists_def execFile_def
        showToast_def launchGuard_def isLaunch_def Let_def popToRoot_def closeMainWindow_def
        guardedFrom_Exec split: prod.splits option.splits)
qed

lemma handleSubmit_guard:
  "\<exists>new. trace (handleSubmit env p v st) = trace st @ new \<and> launchGuard p new"
proof -
  obtain res st1 where w: "writeRegistryValues env (submitSessionName v)
      \<lparr>HostName = host v, PortNumber = Number env (port v), Protocol = protocol v,
       CloseOnExit = closeOnExit v\<rparr> st = (res, st1)"
    by force
  from write_trace [OF w] obtain cs where cs: "trace st1 = trace st @ map Exec cs" by blast
  show ?thesis
    by (cases res)
      (simp_all add: handleSubmit_def w cs fileExists_def execFile_def
        showToast_def launchGuard_def isLaunch_def Let_def popToRoot_def closeMainWindow_def
        guardedFrom_Exec split: prod.splits option.splits)
qed


text \<open>
  C9. On each of the four paths that can launch the executable (\<open>launchSession\<close>, the temporary
  edit form, the edit form, the create form), in the events the path adds every \<open>execFile\<close> is
  immediately preceded by a successful \<open>fileExists\<close> check of the configured path; and when
  that check fails there is no launch and the "PuTTY path not found" failure toast is shown.
\<close>

theorem C9_check_before_launch:
  "(\<exists>new. trace (launchSession env p n st) = trace st @ new \<and> launchGuard p new)
   \<and> (\<exists>new. trace (TempEditForm_handleSubmit env p ev st) = trace st @ new \<and> launchGuard p new)
   \<and> (\<exists>new. trace (EditConnectionForm_handleSubmit env n p ev st) = trace st @ new
         \<and> launchGuard p new)
   \<and> (\<exists>new. trace (handleSubmit env p v st) = trace st @ new \<and> launchGuard p new)"
proof (intro conjI)
  show "\<exists>new. trace (launchSession env p n st) = trace st @ new \<and> launchGuard p new"
    by (rule launchSession_guard)
  show "\<exists>new. trace (TempEditForm_handleSubmit env p ev st) = trace st @ new \<and> launchGuard p new"
    by (rule TempEditForm_guard)
  show "\<exists>new. trace (EditConnectionForm_handleSubmit env n p ev st) = trace st @ new
         \<and> launchGuard p new"
    by (rule EditConnectionForm_guard)
  show "\<exists>new. trace (handleSubmit env p v st) = trace st @ new \<and> launchGuard p new"
    by (rule handleSubmit_guard)
qed

text \<open>The executable is missing: two refused checks, the toast, no launch.\<close>

lemma launch_missing:
  "launchSession (exampleEnv 9 False) (js ''putty.exe'') (js ''testbox'') initialState
     = \<lparr>world = 0,
        trace = [Access (js ''putty.exe'') X_OK False, Access (js ''putty.exe'') R_OK False,
                 ShowToast Failure (js ''PuTTY path not found'') (Some (js ''putty.exe''))],
        sessions = []\<rparr>"
  by (simp add: launchSession_def fileExists_def exampleEnv_def initialState_def showToast_def)

theorem C9_check_before_launch_witness:
  "trace (launchSession (exampleEnv 9 False) (js ''putty.exe'') (js ''testbox'') initialState)
     = [Access (js ''putty.exe'') X_OK False, Access (js ''putty.exe'') R_OK False,
        ShowToast Failure (js ''PuTTY path not found'') (Some (js ''putty.exe''))]
   \<and> launchGuard (js ''putty.exe'')
        [Access (js ''putty.exe'') X_OK False, Access (js ''putty.exe'') R_OK False,
         ShowToast Failure (js ''PuTTY path not found'') (Some (js ''putty.exe''))]
   \<and> Access (js ''putty.exe'') R_OK False
        \<in> set (trace (launchSession (exampleEnv 9 False) (js ''putty.exe'') (js ''testbox'')
             initialState))"
proof -
  from C9_check_before_launch [where env = "exampleEnv 9 False" and p = "js ''putty.exe''"
      and n = "js ''testbox''" and st = initialState]
  obtain new where
    "trace (launchSession (exampleEnv 9 False) (js ''putty.exe'') (js ''testbox'') initialState)
       = trace initialState @ new" "launchGuard (js ''putty.exe'') new"
    by blast
  then have "launchGuard (js ''putty.exe'')
        [Access (js ''putty.exe'') X_OK False, Access (js ''putty.exe'') R_OK False,
         ShowToast Failure (js ''PuTTY path not found'') (Some (js ''putty.exe''))]"
    unfolding launch_missing by (simp add: initialState_def)
  then show ?thesis unfolding launch_missing by simp
qed

text \<open>The launches in a log: file and argument list of each \<open>execFile\<close>.\<close>

fun launches :: "event list \<Rightarrow> (jsstring \<times> jsstring list) list" where
  "launches [] = []"
| "launches (e # es) = (case e of ExecFile f a \<Rightarrow> (f, a) # launches es | _ \<Rightarrow> launches es)"

lemma launches_append [simp]: "launches (xs @ ys) = launches xs @ launches ys"
  by (induction xs) (simp_all split: event.splits)

lemma launches_Exec [simp]: "launches (map Exec cs) = []"
  by (induction cs) simp_all

lemma launchSession_launches:
  "launches (trace (launchSession env p n st))
     = launches (trace st)
       @ (if access env p X_OK (world st) \<or> access env p R_OK (world st)
          then [(p, [js ''-load'', n])] else [])"
  by (simp add: launchSession_def fileExists_def execFile_def showToast_def Let_def
      split: prod.splits option.splits)

lemma TempEditForm_launches:
  assumes "host ev \<noteq> []" "Number env (port ev) = Fin (real k)" "1 \<le> k" "k \<le> 65535"
  shows "launches (trace (TempEditForm_handleSubmit env p ev st))
     = launches (trace st)
       @ (if access env p X_OK (world st) \<or> access env p R_OK (world st)
          then [(p, [protocolToFlag (protocol ev), js ''-P'', decimalDigits k, host ev])]
          else [])"
proof -
  have "portInRange (Number env (port ev))" using assms by (simp add: portInRange_def)
  then have v: "Number_isInteger (Number env (port ev))" "\<not> num_le (Number env (port ev)) 0"
    "\<not> num_gt (Number env (port ev)) 65535"
    by (simp_all add: portInRange_iff)
  have s: "NumberToString env (Number env (port ev)) = decimalDigits k"
    using assms by (simp add: NumberToString_nat)
  show ?thesis
    using assms(1) v s
    by (simp add: TempEditForm_handleSubmit_def fileExists_def execFile_def showToast_def Let_def
        popToRoot_def closeMainWindow_def split: prod.splits option.splits)
qed

lemma protocolToFlag_table:
  "protocolToFlag (js ''ssh'') = js ''-ssh''"
  "protocolToFlag (js ''telnet'') = js ''-telnet''"
  "protocolToFlag (js ''rlogin'') = js ''-rlogin''"
  "protocolToFlag (js ''serial'') = js ''-serial''"
  "protocolToFlag (js ''raw'') = js ''-raw''"
  by (simp_all add: protocolToFlag_def js_def)

lemma decimalDigits_22: "decimalDigits 22 = js ''22''"
  by (simp add: decimalDigits.simps js_def)


lemma EditConnectionForm_launches:
  "\<exists>ls. launches (trace (EditConnectionForm_handleSubmit env n p ev st)) = launches (trace st) @ ls
     \<and> set ls \<subseteq> {(p, [js ''-load'', n])}"
proof -
  obtain res st1 where w: "writeRegistryValues env n
      \<lparr>HostName = host ev, PortNumber = Number env (port ev), Protocol = protocol ev,
       CloseOnExit = closeOnExit ev\<rparr> st = (res, st1)"
    by force
  from write_trace [OF w] obtain cs where cs: "trace st1 = trace st @ map Exec cs" by blast
  show ?thesis
    by (cases res)
      (simp_all add: EditConnectionForm_handleSubmit_def w cs fileExists_def execFile_def
        showToast_def Let_def popToRoot_def closeMainWindow_def
        split: prod.splits option.splits)
qed

lemma handleSubmit_launches:
  "\<exists>ls. launches (trace (handleSubmit env p v st)) = launches (trace st) @ ls
     \<and> set ls \<subseteq> {(p, [js ''-load'', submitSessionName v])}"
proof -
  obtain res st1 where w: "writeRegistryValues env (submitSessionName v)
      \<lparr>HostName = host v, PortNumber = Number env (port v), Protocol = protocol v,
       CloseOnExit = closeOnExit v\<rparr> st = (res, st1)"
    by force
  from write_trace [OF w] obtain cs where cs: "trace st1 = trace st @ map Exec cs" by blast
  show ?thesis
    by (cases res)
      (simp_all add: handleSubmit_def w cs fileExists_def execFile_def
        showToast_def Let_def popToRoot_def closeMainWindow_def
        split: prod.splits option.splits)
qed

text \<open>
  C8. \<open>launchSession\<close> launches (when the path check passes) with exactly the arguments
  \<open>["-load", sessionName]\<close>, and so does every launch of the edit and create forms. The
  temporary edit form, on valid input with port \<open>k\<close>, launches with exactly the protocol's
  flag, \<open>"-P"\<close>, the decimal digits of \<open>k\<close> and the host, in that order; the flags of the five
  protocols are \<open>-ssh\<close>, \<open>-telnet\<close>, \<open>-rlogin\<close>, \<open>-serial\<close> and \<open>-raw\<close>.
\<close>

theorem C8_launch_arguments:
  "launches (trace (launchSession env p n st))
     = launches (trace st)
       @ (if access env p X_OK (world st) \<or> access env p R_OK (world st)
          then [(p, [js ''-load'', n])] else [])
   \<and> (host ev \<noteq> [] \<and> Number env (port ev) = Fin (real k) \<and> 1 \<le> k \<and> k \<le> 65535 \<longrightarrow>
        launches (trace (TempEditForm_handleSubmit env p ev st))
          = launches (trace st)
            @ (if access env p X_OK (world st) \<or> access env p R_OK (world st)
               then [(p, [protocolToFlag (protocol ev), js ''-P'', decimalDigits k, host ev])]
               else []))
   \<and> protocolToFlag (js ''ssh'') = js ''-ssh''
   \<and> protocolToFlag (js ''telnet'') = js ''-telnet''
   \<and> protocolToFlag (js ''rlogin'') = js ''-rlogin''
   \<and> protocolToFlag (js ''serial'') = js ''-serial''
   \<and> protocolToFlag (js ''raw'') = js ''-raw''
   \<and> (\<exists>ls. launches (trace (EditConnectionForm_handleSubmit env n p ev st))
               = launches (trace st) @ ls
            \<and> set ls \<subseteq> {(p, [js ''-load'', n])})
   \<and> (\<exists>ls. launches (trace (handleSubmit env p v st)) = launches (trace st) @ ls
            \<and> set ls \<subseteq> {(p, [js ''-load'', submitSessionName v])})"
proof (intro conjI impI)
  show "launches (trace (launchSession env p n st))
     = launches (trace st)
       @ (if access env p X_OK (world st) \<or> access env p R_OK (world st)
          then [(p, [js ''-load'', n])] else [])"
    by (rule launchSession_launches)
next
  assume "host ev \<noteq> [] \<and> Number env (port ev) = Fin (real k) \<and> 1 \<le> k \<and> k \<le> 65535"
  then show "launches (trace (TempEditForm_handleSubmit env p ev st))
          = launches (trace st)
            @ (if access env p X_OK (world st) \<or> access env p R_OK (world st)
               then [(p, [protocolToFlag (protocol ev), js ''-P'', decimalDigits k, host ev])]
               else [])"
    by (intro TempEditForm_launches) simp_all
qed (simp_all add: protocolToFlag_table EditConnectionForm_launches handleSubmit_launches)

text \<open>SSH to 10.0.0.5, port 22, without saving.\<close>

theorem C8_launch_arguments_witness:
  "host (exampleEdit (js ''10.0.0.5'') (js ''22'')) \<noteq> []
   \<and> Number (exampleEnv 9 True) (port (exampleEdit (js ''10.0.0.5'') (js ''22''))) = Fin (real 22)
   \<and> launches (trace (TempEditForm_handleSubmit (exampleEnv 9 True) (js ''putty.exe'')
        (exampleEdit (js ''10.0.0.5'') (js ''22'')) initialState))
      = [(js ''putty.exe'', [js ''-ssh'', js ''-P'', js ''22'', js ''10.0.0.5''])]"
proof -
  have h: "host (exampleEdit (js ''10.0.0.5'') (js ''22'')) \<noteq> []"
    by (simp add: exampleEdit_def js_def)
  have n: "Number (exampleEnv 9 True) (port (exampleEdit (js ''10.0.0.5'') (js ''22'')))
      = Fin (real 22)"
    by (simp add: exampleEdit_def exampleEnv_def exampleNumber_values)
  have a: "access (exampleEnv 9 True) (js ''putty.exe'') X_OK (world initialState)"
    by (simp add: exampleEnv_def)
  have p: "protocol (exampleEdit (js ''10.0.0.5'') (js ''22'')) = js ''ssh''"
    "host (exampleEdit (js ''10.0.0.5'') (js ''22'')) = js ''10.0.0.5''"
    by (simp_all add: exampleEdit_def)
  have t: "launches (trace initialState) = []" by (simp add: initialState_def)
  from C8_launch_arguments [where env = "exampleEnv 9 True" and p = "js ''putty.exe''"
      and ev = "exampleEdit (js ''10.0.0.5'') (js ''22'')" and k = 22 and st = initialState]
    h n a
  have "launches (trace (TempEditForm_handleSubmit (exampleEnv 9 True) (js ''putty.exe'')
        (exampleEdit (js ''10.0.0.5'') (js ''22'')) initialState))
      = launches (trace initialState)
        @ [(js ''putty.exe'', [protocolToFlag (protocol (exampleEdit (js ''10.0.0.5'') (js ''22''))),
            js ''-P'', decimalDigits 22, host (exampleEdit (js ''10.0.0.5'') (js ''22''))])]"
    by simp
  then show ?thesis using h n
    by (simp add: t p protocolToFlag_table decimalDigits_22)
qed

section \<open>The name a new session is saved under\<close>








text \<open>The shell commands in a log.\<close>

fun commandsRun :: "event list \<Rightarrow> jsstring list" where
  "commandsRun [] = []"
| "commandsRun (e # es) = (case e of Exec c \<Rightarrow> c # commandsRun es | _ \<Rightarrow> commandsRun es)"

lemma commandsRun_append [simp]: "commandsRun (xs @ ys) = commandsRun xs @ commandsRun ys"
  by (induction xs) (simp_all split: event.splits)

lemma commandsRun_Exec [simp]: "commandsRun (map Exec cs) = cs"
  by (induction cs) simp_all







section \<open>Write followed by read in the idealised registry\<close>

text \<open>
  What \<open>readSessionValues\<close> returns after \<open>writeRegistryValues\<close> depends on what
  \<open>reg.exe\<close> does with the five command lines and on what it prints for the query, so the round
  trip is established for the idealised registry \<open>regExec\<close>. The development follows the data:
  the characters of an encoded key segment, the tokens of the command lines, the lines the
  query prints, the pattern applied to each line, and the fold over the lines.
\<close>

subsection \<open>Characters of an encoded key segment\<close>















subsection \<open>Tokens of the command lines\<close>








subsection \<open>Digits of the port number\<close>














subsection \<open>Key paths\<close>





subsection \<open>The pattern of a value line\<close>


















subsection \<open>Value lines of the query output\<close>














subsection \<open>The query output, line by line\<close>





















subsection \<open>The registry's answers\<close>










subsection \<open>Write, then read\<close>


















section \<open>What readSessionValues returns when the query gives nothing\<close>












section \<open>Listing the sessions\<close>



subsection \<open>The sort\<close>







subsection \<open>The lines of the root query\<close>










subsection \<open>The list is one entry per child key, in order\<close>










section \<open>Deleting a session\<close>








end
